theory Spec2Isabelle
  imports Complex_Main "HOL-Library.Word"
begin

unbundle bit_operations_syntax

section \<open>Go values held behind \<open>interface{}\<close>\<close>

text \<open>
  \<open>Config.data\<close> is a \<open>map[string]interface{}\<close> and \<open>Set\<close> takes an \<open>interface{}\<close>:
  a value carries its dynamic type. Integers are machine words of their width (\<open>int\<close> and
  \<open>uint\<close> are taken as 64 bits wide), floating-point numbers are their IEEE-754 bit
  patterns, and every dynamic type the type switches of the package never name (structs,
  slices, a nil interface, ...) is \<open>GoOther\<close> with the name of its type.
\<close>

type_synonym byte = "8 word"
type_synonym float32 = "32 word"
type_synonym float64 = "64 word"

datatype gvalue =
    GoInt "64 word"
  | GoInt8 "8 word"
  | GoInt16 "16 word"
  | GoInt32 "32 word"
  | GoInt64 "64 word"
  | GoUint "64 word"
  | GoUint8 "8 word"
  | GoUint16 "16 word"
  | GoUint32 "32 word"
  | GoUint64 "64 word"
  | GoFloat32 float32
  | GoFloat64 float64
  | GoString string
  | GoBool bool
  | GoOther string

section \<open>Numeric conversions of the language\<close>

text \<open>The number of binary digits of a positive integer.\<close>

function bitlen :: "int \<Rightarrow> nat" where
  "bitlen n = (if n \<le> 0 then 0 else Suc (bitlen (n div 2)))"
  by pat_completeness auto
termination
  by (relation "measure nat") auto

declare bitlen.simps [simp del]

text \<open>
  \<open>round_even a sh\<close> drops the low \<open>sh\<close> bits of \<open>a\<close>, rounding to nearest and ties to
  even, as the conversion of an integer to a floating-point number does.
\<close>

definition round_even :: "int \<Rightarrow> nat \<Rightarrow> int" where
  "round_even a sh =
     (let q0 = a div 2 ^ sh; r = a mod 2 ^ sh; h = 2 ^ (sh - 1)
      in if sh = 0 then a
         else if r > h \<or> (r = h \<and> odd q0) then q0 + 1 else q0)"

text \<open>
  \<open>float64(v)\<close> for an integer \<open>v\<close>: sign, biased exponent and 52 fraction bits of the
  nearest double. A carry out of the rounded significand moves into the exponent field.
\<close>

definition float64_of_int :: "int \<Rightarrow> float64" where
  "float64_of_int n =
     (if n = 0 then 0
      else let a = \<bar>n\<bar>; l = bitlen a;
               q = (if l \<le> 53 then a * 2 ^ (53 - l) else round_even a (l - 53))
           in word_of_int ((if n < 0 then 2 ^ 63 else 0) + (int l + 1022) * 2 ^ 52 + (q - 2 ^ 52)))"

text \<open>
  \<open>float64(v)\<close> for a \<open>float32\<close>: the widening is exact. Infinities and NaNs keep their
  payload (a NaN comes out quiet), subnormal singles become normal doubles.
\<close>

definition float64_of_float32 :: "float32 \<Rightarrow> float64" where
  "float64_of_float32 x =
     (let s = (if bit x 31 then (2 ^ 63 :: int) else 0);
          e = uint (drop_bit 23 x AND 255);
          f = uint (x AND 8388607)
      in if e = 255 then
           word_of_int (s + 2047 * 2 ^ 52 + f * 2 ^ 29
                        + (if f = 0 then 0 else 2 ^ 51 - (f * 2 ^ 29 div 2 ^ 51 mod 2) * 2 ^ 51))
         else if e = 0 then
           (if f = 0 then word_of_int s
            else let l = bitlen f
                 in word_of_int (s + (int l + 873) * 2 ^ 52 + (f * 2 ^ (53 - l) - 2 ^ 52)))
         else word_of_int (s + (e + 896) * 2 ^ 52 + f * 2 ^ 29))"

text \<open>
  The fields of a double (the biased exponent, the significand with its hidden bit, the
  exponent that scales it) and the real number a finite double stands for; \<open>None\<close> for
  infinities and NaNs.
\<close>

definition float64_exp :: "float64 \<Rightarrow> nat" where
  "float64_exp v = unat (drop_bit 52 v AND 2047)"

definition float64_mant :: "float64 \<Rightarrow> int" where
  "float64_mant v =
     (if float64_exp v = 0 then uint (v AND 4503599627370495)
      else uint (v AND 4503599627370495) + 2 ^ 52)"

definition float64_scale :: "float64 \<Rightarrow> nat" where
  "float64_scale v = (if float64_exp v = 0 then 1 else float64_exp v)"

definition float64_val :: "float64 \<Rightarrow> real option" where
  "float64_val v =
     (if float64_exp v = 2047 then None
      else Some ((if bit v 63 then - 1 else 1) * real_of_int (float64_mant v)
                 * 2 powi (int (float64_scale v) - 1075)))"

text \<open>Truncation towards zero of a real number.\<close>

definition trunc :: "real \<Rightarrow> int" where
  "trunc x = (if x < 0 then - \<lfloor>- x\<rfloor> else \<lfloor>x\<rfloor>)"

text \<open>
  \<open>int(v)\<close> for a \<open>float64\<close>: the fraction is discarded. When the result does not fit
  the 64 bits of an \<open>int\<close> (or \<open>v\<close> is an infinity or a NaN) the language leaves the
  result to the implementation: \<open>impl\<close> is that choice.
\<close>

definition int_of_float64 :: "(float64 \<Rightarrow> 64 word) \<Rightarrow> float64 \<Rightarrow> 64 word" where
  "int_of_float64 impl v =
     (if float64_exp v = 2047 then impl v
      else let m = float64_mant v; ex = float64_scale v;
               mag = (if 1075 \<le> ex then m * 2 ^ (ex - 1075) else m div 2 ^ (1075 - ex));
               t = (if bit v 63 then - mag else mag)
           in if - (2 ^ 63) \<le> t \<and> t < 2 ^ 63 then word_of_int t else impl v)"

text \<open>What amd64 stores for a value out of range: the "integer indefinite".\<close>

definition amd64_indefinite :: "float64 \<Rightarrow> 64 word" where
  "amd64_indefinite v = 9223372036854775808"

section \<open>The store: \<open>cfg.Config\<close>\<close>

text \<open>
  \<open>data\<close> is \<open>None\<close> for a nil map; \<open>file'\<close> (the field \<open>file\<close>) is \<open>None\<close> for a nil
  \<open>*os.File\<close> and a file descriptor otherwise. The mutex is left out: the model runs
  one call at a time.
\<close>

record Config =
  data :: "(string \<rightharpoonup> gvalue) option"
  file' :: "nat option"
  path :: string

text \<open>Reading a Go map: a nil map reads as an empty one.\<close>

definition map_index :: "(string \<rightharpoonup> gvalue) option \<Rightarrow> string \<Rightarrow> gvalue option" where
  "map_index d key = (case d of None \<Rightarrow> None | Some m \<Rightarrow> m key)"

definition GetString :: "Config \<Rightarrow> string \<Rightarrow> string \<times> bool" where
  "GetString c key =
     (case map_index (data c) key of
        None \<Rightarrow> ('''', False)
      | Some val \<Rightarrow> (case val of GoString s \<Rightarrow> (s, True) | _ \<Rightarrow> ('''', False)))"

definition GetInt :: "(float64 \<Rightarrow> 64 word) \<Rightarrow> Config \<Rightarrow> string \<Rightarrow> 64 word \<times> bool" where
  "GetInt impl c key =
     (case map_index (data c) key of
        None \<Rightarrow> (0, False)
      | Some val \<Rightarrow>
          (case val of
             GoFloat64 v \<Rightarrow> (int_of_float64 impl v, True)
           | GoInt v \<Rightarrow> (v, True)
           | _ \<Rightarrow> (0, False)))"

definition GetFloat64 :: "Config \<Rightarrow> string \<Rightarrow> float64 \<times> bool" where
  "GetFloat64 c key =
     (case map_index (data c) key of
        None \<Rightarrow> (0, False)
      | Some val \<Rightarrow> (case val of GoFloat64 v \<Rightarrow> (v, True) | _ \<Rightarrow> (0, False)))"

definition GetBool :: "Config \<Rightarrow> string \<Rightarrow> bool \<times> bool" where
  "GetBool c key =
     (case map_index (data c) key of
        None \<Rightarrow> (False, False)
      | Some val \<Rightarrow> (case val of GoBool v \<Rightarrow> (v, True) | _ \<Rightarrow> (False, False)))"

section \<open>The operating system: files and descriptors\<close>

text \<open>
  The world outside the process: the content of every file by path, the open descriptors
  (each with the path it was opened on and its offset), and which system calls fail. Any
  call may fail: \<open>faults w n\<close> is \<open>None\<close> when the \<open>n\<close>-th call of the run succeeds and
  \<open>Some k\<close> when it fails (for a write, after \<open>k\<close> bytes went out). \<open>clock\<close> counts the
  calls made so far, so a world is unchanged exactly when no call was made on it. Only
  the calls below change a world: other processes are not part of the model.
\<close>

record world =
  files :: "string \<rightharpoonup> byte list"
  fds :: "nat \<rightharpoonup> string \<times> nat"
  next_fd :: nat
  faults :: "nat \<Rightarrow> nat option"
  clock :: nat

definition fault :: "world \<Rightarrow> nat option" where
  "fault w = faults w (clock w)"

definition tick :: "world \<Rightarrow> world" where
  "tick w = w\<lparr>clock := Suc (clock w)\<rparr>"

text \<open>\<open>os.OpenFile(path, os.O_RDWR|os.O_CREATE, 0o644)\<close>: a missing file is created empty.\<close>

definition os_OpenFile :: "string \<Rightarrow> world \<Rightarrow> nat option \<times> world" where
  "os_OpenFile p w =
     (case fault w of
        Some k \<Rightarrow> (None, tick w)
      | None \<Rightarrow>
          (Some (next_fd w),
           (tick w)\<lparr>files := (case files w p of None \<Rightarrow> (files w)(p \<mapsto> []) | Some bs \<Rightarrow> files w),
                    fds := (fds w)(next_fd w \<mapsto> (p, 0)),
                    next_fd := Suc (next_fd w)\<rparr>))"

text \<open>The content behind a descriptor.\<close>

definition fd_bytes :: "world \<Rightarrow> nat \<Rightarrow> byte list option" where
  "fd_bytes w fd = (case fds w fd of None \<Rightarrow> None | Some (p, pos) \<Rightarrow> files w p)"

text \<open>\<open>file.Stat()\<close>, of which only \<open>Size()\<close> is read.\<close>

definition file_Stat :: "nat \<Rightarrow> world \<Rightarrow> nat option \<times> world" where
  "file_Stat fd w =
     (case fault w of
        Some k \<Rightarrow> (None, tick w)
      | None \<Rightarrow> (case fd_bytes w fd of None \<Rightarrow> (None, tick w) | Some bs \<Rightarrow> (Some (length bs), tick w)))"

text \<open>Reading the file from its offset to its end, as the decoder's reader does.\<close>

definition file_Read :: "nat \<Rightarrow> world \<Rightarrow> byte list option \<times> world" where
  "file_Read fd w =
     (case fault w of
        Some k \<Rightarrow> (None, tick w)
      | None \<Rightarrow>
          (case fds w fd of
             None \<Rightarrow> (None, tick w)
           | Some (p, pos) \<Rightarrow>
               (case files w p of
                  None \<Rightarrow> (None, tick w)
                | Some bs \<Rightarrow> (Some (drop pos bs), (tick w)\<lparr>fds := (fds w)(fd \<mapsto> (p, max pos (length bs)))\<rparr>))))"

text \<open>\<open>file.Seek(0, 0)\<close>; \<open>True\<close> is a nil error.\<close>

definition file_Seek :: "nat \<Rightarrow> world \<Rightarrow> bool \<times> world" where
  "file_Seek fd w =
     (case fault w of
        Some k \<Rightarrow> (False, tick w)
      | None \<Rightarrow>
          (case fds w fd of
             None \<Rightarrow> (False, tick w)
           | Some (p, pos) \<Rightarrow> (True, (tick w)\<lparr>fds := (fds w)(fd \<mapsto> (p, 0))\<rparr>)))"

text \<open>\<open>file.Truncate(0)\<close>: the offset stays where it is.\<close>

definition file_Truncate :: "nat \<Rightarrow> world \<Rightarrow> bool \<times> world" where
  "file_Truncate fd w =
     (case fault w of
        Some k \<Rightarrow> (False, tick w)
      | None \<Rightarrow>
          (case fds w fd of
             None \<Rightarrow> (False, tick w)
           | Some (p, pos) \<Rightarrow> (True, (tick w)\<lparr>files := (files w)(p \<mapsto> [])\<rparr>)))"

text \<open>
  Writing at the offset: a gap before the offset reads as zero bytes, what lay under the
  written bytes is replaced, and a failing write leaves the bytes that went out.
\<close>

definition file_Write :: "nat \<Rightarrow> byte list \<Rightarrow> world \<Rightarrow> bool \<times> world" where
  "file_Write fd bs w =
     (case fds w fd of
        None \<Rightarrow> (False, tick w)
      | Some (p, pos) \<Rightarrow>
          (case files w p of
             None \<Rightarrow> (False, tick w)
           | Some old \<Rightarrow>
               (let n = (case fault w of None \<Rightarrow> length bs | Some k \<Rightarrow> min k (length bs));
                    new = take pos old @ replicate (pos - length old) 0 @ take n bs @ drop (pos + n) old
                in (fault w = None,
                    (tick w)\<lparr>files := (files w)(p \<mapsto> new), fds := (fds w)(fd \<mapsto> (p, pos + n))\<rparr>))))"

text \<open>\<open>file.Sync()\<close>.\<close>

definition file_Sync :: "nat \<Rightarrow> world \<Rightarrow> bool \<times> world" where
  "file_Sync fd w =
     (case fault w of
        Some k \<Rightarrow> (False, tick w)
      | None \<Rightarrow> (case fds w fd of None \<Rightarrow> (False, tick w) | Some x \<Rightarrow> (True, tick w)))"

text \<open>\<open>file.Close()\<close>: the descriptor is gone afterwards, also when the call reports an error.\<close>

definition file_Close :: "nat \<Rightarrow> world \<Rightarrow> bool \<times> world" where
  "file_Close fd w =
     (case fds w fd of
        None \<Rightarrow> (False, tick w)
      | Some x \<Rightarrow> (fault w = None, (tick w)\<lparr>fds := (fds w)(fd := None)\<rparr>))"

section \<open>The serialisation: \<open>encoding/gob\<close>\<close>

text \<open>
  The package writes and reads its map with the standard library's \<open>encoding/gob\<close>, which
  is not part of the repository: the encoder and the decoder are parameters of the model.
  A decoder ends in a value, in \<open>io.EOF\<close> or in another error; an encoder may fail.
\<close>

datatype decoded = Decoded "string \<rightharpoonup> gvalue" | DecodeEOF | DecodeFailed

record gob =
  gob_Encode :: "(string \<rightharpoonup> gvalue) option \<Rightarrow> byte list option"
  gob_Decode :: "byte list \<Rightarrow> decoded"

text \<open>\<open>gob.NewDecoder(file).Decode(&data)\<close>: a read error is the decoder's error.\<close>

definition gob_Decode_file :: "gob \<Rightarrow> nat \<Rightarrow> world \<Rightarrow> decoded \<times> world" where
  "gob_Decode_file g fd w =
     (case file_Read fd w of
        (None, w') \<Rightarrow> (DecodeFailed, w')
      | (Some bs, w') \<Rightarrow> (gob_Decode g bs, w'))"

text \<open>\<open>gob.NewEncoder(c.file).Encode(c.data)\<close>: nothing is written when the encoding fails.\<close>

definition gob_Encode_file :: "gob \<Rightarrow> nat \<Rightarrow> (string \<rightharpoonup> gvalue) option \<Rightarrow> world \<Rightarrow> bool \<times> world" where
  "gob_Encode_file g fd d w =
     (case gob_Encode g d of
        None \<Rightarrow> (False, w)
      | Some bs \<Rightarrow> file_Write fd bs w)"

section \<open>Errors\<close>

text \<open>
  The errors the package returns, by the message that makes them: \<open>OpenError\<close> ("unable to
  open config file"), \<open>StatError\<close> ("unable to stat config file"), \<open>DecodeError\<close> ("unable to
  decode config file"), \<open>SeekError\<close> ("unable to seek config file"), \<open>TypeError\<close>
  ("unsupported type", with the name of the type), \<open>NotAvailable\<close> ("config file not
  available"), \<open>AlreadyClosedError\<close> ("config file already closed"), \<open>FlushError\<close> ("failed
  to flush config", wrapping the flush's error) and \<open>CloseError\<close> ("failed to close config
  file"). \<open>IOError\<close> is the error of the system call or of the encoder that
  \<open>flushUnsafeLocked\<close> passes on as it is, with the step that failed.
\<close>

datatype io_op = OpTruncate | OpSeek | OpEncode | OpSync

datatype error =
    OpenError
  | StatError
  | DecodeError
  | SeekError
  | TypeError string
  | NotAvailable
  | AlreadyClosedError
  | IOError io_op
  | FlushError error
  | CloseError

text \<open>A call returns, or panics (a write to a nil map).\<close>

datatype 'a outcome = Return 'a | Panic

section \<open>Loading, writing and closing\<close>

definition readFromFile :: "gob \<Rightarrow> Config \<Rightarrow> world \<Rightarrow> error option \<times> Config \<times> world" where
  "readFromFile g c w =
     (case os_OpenFile (path c) w of
        (None, w1) \<Rightarrow> (Some OpenError, c, w1)
      | (Some fd, w1) \<Rightarrow>
          (case file_Stat fd w1 of
             (None, w2) \<Rightarrow> (Some StatError, c, snd (file_Close fd w2))
           | (Some sz, w2) \<Rightarrow>
               (case (if sz > 0 then gob_Decode_file g fd w2 else (Decoded Map.empty, w2)) of
                  (DecodeFailed, w3) \<Rightarrow> (Some DecodeError, c, snd (file_Close fd w3))
                | (r, w3) \<Rightarrow>
                    (case file_Seek fd w3 of
                       (False, w4) \<Rightarrow> (Some SeekError, c, snd (file_Close fd w4))
                     | (True, w4) \<Rightarrow>
                         (None,
                          c\<lparr>data := (case r of Decoded m \<Rightarrow> Some m | _ \<Rightarrow> None), file' := Some fd\<rparr>,
                          w4)))))"

definition New :: "gob \<Rightarrow> string \<Rightarrow> world \<Rightarrow> (error + Config) \<times> world" where
  "New g p w =
     (case readFromFile g \<lparr>data = None, file' = None, path = p\<rparr> w of
        (Some err, c, w') \<Rightarrow> (Inl err, w')
      | (None, c, w') \<Rightarrow> (Inr c, w'))"

definition flushUnsafeLocked :: "gob \<Rightarrow> Config \<Rightarrow> world \<Rightarrow> error option \<times> world" where
  "flushUnsafeLocked g c w =
     (case file' c of
        None \<Rightarrow> (Some NotAvailable, w)
      | Some fd \<Rightarrow>
          (case file_Truncate fd w of
             (False, w1) \<Rightarrow> (Some (IOError OpTruncate), w1)
           | (True, w1) \<Rightarrow>
               (case file_Seek fd w1 of
                  (False, w2) \<Rightarrow> (Some (IOError OpSeek), w2)
                | (True, w2) \<Rightarrow>
                    (case gob_Encode_file g fd (data c) w2 of
                       (False, w3) \<Rightarrow> (Some (IOError OpEncode), w3)
                     | (True, w3) \<Rightarrow>
                         (case file_Sync fd w3 of
                            (False, w4) \<Rightarrow> (Some (IOError OpSync), w4)
                          | (True, w4) \<Rightarrow> (None, w4))))))"

text \<open>The name \<open>%T\<close> prints for the dynamic type of a value.\<close>

definition type_name :: "gvalue \<Rightarrow> string" where
  "type_name v =
     (case v of
        GoInt x \<Rightarrow> ''int'' | GoInt8 x \<Rightarrow> ''int8'' | GoInt16 x \<Rightarrow> ''int16''
      | GoInt32 x \<Rightarrow> ''int32'' | GoInt64 x \<Rightarrow> ''int64''
      | GoUint x \<Rightarrow> ''uint'' | GoUint8 x \<Rightarrow> ''uint8'' | GoUint16 x \<Rightarrow> ''uint16''
      | GoUint32 x \<Rightarrow> ''uint32'' | GoUint64 x \<Rightarrow> ''uint64''
      | GoFloat32 x \<Rightarrow> ''float32'' | GoFloat64 x \<Rightarrow> ''float64''
      | GoString x \<Rightarrow> ''string'' | GoBool x \<Rightarrow> ''bool'' | GoOther n \<Rightarrow> n)"

text \<open>The type switch at the head of \<open>Set\<close>: the value to store, or the error returned.\<close>

definition normalize :: "gvalue \<Rightarrow> error + gvalue" where
  "normalize val =
     (case val of
        GoInt v \<Rightarrow> Inr (GoFloat64 (float64_of_int (sint v)))
      | GoInt32 v \<Rightarrow> Inr (GoFloat64 (float64_of_int (sint v)))
      | GoInt64 v \<Rightarrow> Inr (GoFloat64 (float64_of_int (sint v)))
      | GoFloat32 v \<Rightarrow> Inr (GoFloat64 (float64_of_float32 v))
      | GoString v \<Rightarrow> Inr val
      | GoBool v \<Rightarrow> Inr val
      | GoFloat64 v \<Rightarrow> Inr val
      | _ \<Rightarrow> Inl (TypeError (type_name val)))"

definition Set :: "gob \<Rightarrow> Config \<Rightarrow> string \<Rightarrow> gvalue \<Rightarrow> world \<Rightarrow> error option outcome \<times> Config \<times> world" where
  "Set g c key val w =
     (case normalize val of
        Inl err \<Rightarrow> (Return (Some err), c, w)
      | Inr v \<Rightarrow>
          (case data c of
             None \<Rightarrow> (Panic, c, w)
           | Some m \<Rightarrow>
               (let c' = c\<lparr>data := Some (m(key \<mapsto> v))\<rparr>
                in (Return (fst (flushUnsafeLocked g c' w)), c', snd (flushUnsafeLocked g c' w)))))"

definition Finish :: "gob \<Rightarrow> Config \<Rightarrow> world \<Rightarrow> error option \<times> Config \<times> world" where
  "Finish g c w =
     (case file' c of
        None \<Rightarrow> (Some AlreadyClosedError, c, w)
      | Some fd \<Rightarrow>
          (case flushUnsafeLocked g c w of
             (Some err, w1) \<Rightarrow> (Some (FlushError err), c, w1)
           | (None, w1) \<Rightarrow>
               (case file_Close fd w1 of
                  (False, w2) \<Rightarrow> (Some CloseError, c, w2)
                | (True, w2) \<Rightarrow> (None, c\<lparr>file' := None\<rparr>, w2))))"


section \<open>The progress indicator: \<open>stepper.Step\<close>\<close>

text \<open>
  \<open>done'\<close> is the \<open>uint32\<close> counter \<open>done\<close> of the struct, \<open>onceComplete\<close> tells whether
  the \<open>sync.Once\<close> has run, and \<open>output'\<close> holds what reached the writer \<open>output\<close>: the
  final line the goroutine prints when it receives the result (\<open>Complete\<close> waits for it
  before it returns). The spinner frames printed before depend on time and are left
  out. An error is an \<open>AlreadyCompletedError\<close> with the name of its step, or any other
  error with its message.
\<close>

datatype step_error = AlreadyCompletedError string | OtherError string

text \<open>\<open>Error()\<close>: \<open>%q\<close> puts the name between double quotes (escapes are left out).\<close>

definition Error :: "step_error \<Rightarrow> string" where
  "Error e =
     (case e of
        AlreadyCompletedError n \<Rightarrow> ''step '' @ [CHR 0x22] @ n @ [CHR 0x22] @ '' already completed''
      | OtherError msg \<Rightarrow> msg)"

record Step =
  name :: string
  done' :: "32 word"
  onceComplete :: bool
  output' :: "string list"

text \<open>\<open>stepper.New\<close>, without the writer and the spinner.\<close>

definition New_Step :: "string \<Rightarrow> Step" where
  "New_Step nm = \<lparr>name = nm, done' = 0, onceComplete = False, output' = []\<rparr>"

definition GetName :: "Step \<Rightarrow> string" where
  "GetName s = name s"

text \<open>
  The line the goroutine prints for the result it received. The two glyphs of the source
  (a check mark, a red circle) are written \<open>[ok]\<close> and \<open>[failed]\<close>.
\<close>

definition final_line :: "string \<Rightarrow> step_error option \<Rightarrow> string" where
  "final_line nm err =
     (case err of
        None \<Rightarrow> ''[ok] '' @ nm
      | Some e \<Rightarrow> ''[failed] '' @ nm @ '' - error: '' @ Error e)"

definition Complete :: "step_error option \<Rightarrow> Step \<Rightarrow> step_error option \<times> Step" where
  "Complete err s =
     (let s1 = s\<lparr>done' := done' s + 1\<rparr>;
          returnErr = (if done' s1 > 1 then Some (AlreadyCompletedError (name s1)) else None)
      in if onceComplete s1 then (returnErr, s1)
         else (err, s1\<lparr>onceComplete := True, output' := output' s1 @ [final_line (name s1) err]\<rparr>))"

section \<open>The types \<open>Set\<close> accepts\<close>

text \<open>
  The dynamic types the type switch of \<open>Set\<close> names: \<open>int\<close>, \<open>int32\<close>, \<open>int64\<close>,
  \<open>float32\<close>, \<open>string\<close>, \<open>bool\<close> and \<open>float64\<close>.
\<close>

definition supported :: "gvalue \<Rightarrow> bool" where
  "supported v =
     (case v of
        GoInt x \<Rightarrow> True | GoInt32 x \<Rightarrow> True | GoInt64 x \<Rightarrow> True
      | GoFloat32 x \<Rightarrow> True | GoFloat64 x \<Rightarrow> True
      | GoString x \<Rightarrow> True | GoBool x \<Rightarrow> True
      | _ \<Rightarrow> False)"

section \<open>Concrete inputs for the examples\<close>

text \<open>
  A toy serialisation for the examples: every map is written as the single byte 1, and
  that byte reads back as the map holding \<open>foo = "bar"\<close>. An empty input is at EOF, every
  other input is malformed.
\<close>

definition gob0 :: gob where
  "gob0 = \<lparr>gob_Encode = (\<lambda>d. Some [1]),
           gob_Decode = (\<lambda>bs. if bs = [] then DecodeEOF
                               else if bs = [1] then Decoded [''foo'' \<mapsto> GoString ''bar'']
                               else DecodeFailed)\<rparr>"

text \<open>A world with no file, in which no call fails.\<close>

definition world0 :: world where
  "world0 = \<lparr>files = Map.empty, fds = Map.empty, next_fd = 3, faults = (\<lambda>n. None), clock = 0\<rparr>"

text \<open>The store and the world that \<open>New\<close> on \<open>config.gob\<close> leaves in \<open>world0\<close>.\<close>

definition store0 :: Config where
  "store0 = \<lparr>data = Some Map.empty, file' = Some 3, path = ''config.gob''\<rparr>"

definition world1 :: world where
  "world1 = \<lparr>files = [''config.gob'' \<mapsto> []], fds = [3 \<mapsto> (''config.gob'', 0)], next_fd = 4,
              faults = (\<lambda>n. None), clock = 3\<rparr>"

text \<open>The same world with every further call failing.\<close>

definition world_failing :: world where
  "world_failing = world1\<lparr>faults := (\<lambda>n. Some 0)\<rparr>"


definition world2 :: world where
  "world2 = \<lparr>files = [''config.gob'' \<mapsto> [1]], fds = Map.empty, next_fd = 4,
              faults = (\<lambda>n. None), clock = 8\<rparr>"


section \<open>Notions the statements use\<close>

text \<open>
  The store holds an open descriptor on its own path: what \<open>New\<close> establishes and
  \<open>Set\<close> keeps.
\<close>

definition holds_file :: "Config \<Rightarrow> world \<Rightarrow> bool" where
  "holds_file c w =
     (case file' c of
        None \<Rightarrow> False
      | Some fd \<Rightarrow> (case fds w fd of None \<Rightarrow> False | Some (p, pos) \<Rightarrow> p = path c))"

text \<open>
  The serialisation reads back what it wrote for the map \<open>m\<close>: the encoding succeeds, is
  not empty, and decodes to \<open>m\<close>.
\<close>

definition round_trips :: "gob \<Rightarrow> (string \<rightharpoonup> gvalue) \<Rightarrow> bool" where
  "round_trips g m =
     (case gob_Encode g (Some m) of
        None \<Rightarrow> False
      | Some bs \<Rightarrow> bs \<noteq> [] \<and> gob_Decode g bs = Decoded m)"

text \<open>The step after \<open>n\<close> calls of \<open>Complete(nil)\<close>.\<close>

definition Complete_times :: "nat \<Rightarrow> Step \<Rightarrow> Step" where
  "Complete_times n s = ((\<lambda>s. snd (Complete None s)) ^^ n) s"

section \<open>What the conversions compute\<close>

lemma bitlen_bounds: "0 < a \<Longrightarrow> 2 ^ (bitlen a - 1) \<le> a \<and> a < 2 ^ bitlen a"
proof (induction a rule: bitlen.induct)
  case (1 n)
  from 1(2) have l: "bitlen n = Suc (bitlen (n div 2))"
    by (simp add: bitlen.simps [of n])
  show ?case
  proof (cases "n div 2 = 0")
    case True
    with 1(2) have "n = 1" by presburger
    then show ?thesis by (simp add: bitlen.simps)
  next
    case False
    with 1(2) have pos: "0 < n div 2" by presburger
    with 1 have ih: "2 ^ (bitlen (n div 2) - 1) \<le> n div 2" "n div 2 < 2 ^ bitlen (n div 2)"
      by simp_all
    from pos have "bitlen (n div 2) \<noteq> 0" by (simp add: bitlen.simps [of "n div 2"])
    then obtain j where j: "bitlen (n div 2) = Suc j" by (cases "bitlen (n div 2)") auto
    from ih(1) j have "2 * 2 ^ j \<le> 2 * (n div 2)" by simp
    also have "\<dots> \<le> n" by presburger
    finally have a: "2 ^ (bitlen n - 1) \<le> n" by (simp add: l j)
    from ih(2) have "n div 2 + 1 \<le> 2 ^ bitlen (n div 2)" by simp
    then have "2 * (n div 2 + 1) \<le> 2 * 2 ^ bitlen (n div 2)" by simp
    moreover have "n < 2 * (n div 2 + 1)" by presburger
    ultimately have b: "n < 2 ^ bitlen n" by (simp add: l)
    from a b show ?thesis by simp
  qed
qed

lemma divmod_aux:
  fixes q r b :: int
  assumes "0 \<le> r" and "r < b"
  shows "(q * b + r) mod b = r" and "(q * b + r) div b = q"
  using assms by (simp_all add: mod_pos_pos_trivial div_pos_pos_trivial)

lemma split_fields:
  fixes e r sb :: int
  assumes e: "0 \<le> e" "e < 2 ^ 11" and r: "0 \<le> r" "r < 2 ^ 52" and sb: "sb = 0 \<or> sb = 1"
  defines "k \<equiv> sb * 2 ^ 63 + e * 2 ^ 52 + r"
  shows "0 \<le> k" and "k < 2 ^ 64" and "k mod 2 ^ 52 = r" and "k div 2 ^ 52 mod 2 ^ 11 = e"
    and "odd (k div 2 ^ 63) \<longleftrightarrow> sb = 1"
proof -
  have k1: "k = (sb * 2 ^ 11 + e) * 2 ^ 52 + r" by (simp add: k_def algebra_simps)
  have er: "0 \<le> e * 2 ^ 52 + r" using e r by simp
  have "e * 2 ^ 52 + r < (e + 1) * 2 ^ 52" using r by (simp add: algebra_simps)
  also have "\<dots> \<le> 2 ^ 11 * 2 ^ 52" using e by (intro mult_right_mono) simp_all
  finally have er': "e * 2 ^ 52 + r < 2 ^ 63" by simp
  show "0 \<le> k" using er sb by (auto simp: k_def)
  show "k < 2 ^ 64" using er' sb by (auto simp: k_def)
  show m: "k mod 2 ^ 52 = r" unfolding k1 using r by (rule divmod_aux(1))
  have d: "k div 2 ^ 52 = sb * 2 ^ 11 + e" unfolding k1 using r by (rule divmod_aux(2))
  show "k div 2 ^ 52 mod 2 ^ 11 = e" unfolding d using e by (rule divmod_aux(1))
  have "k div 2 ^ 63 = sb"
  proof -
    have "k = sb * 2 ^ 63 + (e * 2 ^ 52 + r)" by (simp add: k_def)
    then show ?thesis using er er' by (simp only: divmod_aux(2))
  qed
  then show "odd (k div 2 ^ 63) \<longleftrightarrow> sb = 1" using sb by auto
qed

lemma uint_and_mask_52: "uint ((w::64 word) AND mask 52) = uint w mod 2 ^ 52"
proof -
  have "uint (w AND mask 52) = uint (take_bit 52 w)" by (simp only: take_bit_eq_mask)
  also have "\<dots> = take_bit 52 (uint w)" by (rule unsigned_take_bit_eq)
  also have "\<dots> = uint w mod 2 ^ 52" by (rule take_bit_eq_mod)
  finally show ?thesis .
qed

lemma unat_exponent_field: "int (unat (drop_bit 52 (w::64 word) AND mask 11)) = uint w div 2 ^ 52 mod 2 ^ 11"
proof -
  have "unat (drop_bit 52 w AND mask 11) = unat (take_bit 11 (drop_bit 52 w))"
    by (simp only: take_bit_eq_mask)
  also have "\<dots> = take_bit 11 (unat (drop_bit 52 w))" by (rule unsigned_take_bit_eq)
  also have "\<dots> = take_bit 11 (drop_bit 52 (unat w))" by (simp only: unat_drop_bit_eq)
  also have "\<dots> = unat w div 2 ^ 52 mod 2 ^ 11" by (simp only: take_bit_eq_mod drop_bit_eq_div)
  finally have "int (unat (drop_bit 52 w AND mask 11)) = int (unat w div 2 ^ 52 mod 2 ^ 11)"
    by simp
  also have "\<dots> = uint w div 2 ^ 52 mod 2 ^ 11"
    by (simp add: zmod_int zdiv_int)
  finally show ?thesis .
qed

lemma bit_63_iff: "bit (w::64 word) 63 = odd (uint w div 2 ^ 63)"
proof -
  have "bit w 63 = bit (uint w) 63" by (simp add: bit_uint_iff)
  also have "\<dots> = odd (uint w div 2 ^ 63)" by (simp only: bit_iff_odd_drop_bit drop_bit_eq_div)
  finally show ?thesis .
qed

lemma float64_fields:
  fixes e r sb :: int
  assumes e: "0 \<le> e" "e < 2 ^ 11" and r: "0 \<le> r" "r < 2 ^ 52" and sb: "sb = 0 \<or> sb = 1"
  defines "w \<equiv> (word_of_int (sb * 2 ^ 63 + e * 2 ^ 52 + r) :: 64 word)"
  shows "int (float64_exp w) = e" and "uint (w AND 4503599627370495) = r" and "bit w 63 \<longleftrightarrow> sb = 1"
proof -
  note sf = split_fields [OF e r sb]
  have u: "uint w = sb * 2 ^ 63 + e * 2 ^ 52 + r"
    unfolding w_def uint_word_of_int_eq using sf(1,2) by (simp add: take_bit_int_eq_self)
  have m52: "(4503599627370495 :: 64 word) = mask 52" by (simp add: mask_eq_exp_minus_1)
  have m11: "(2047 :: 64 word) = mask 11" by (simp add: mask_eq_exp_minus_1)
  show "int (float64_exp w) = e"
    unfolding float64_exp_def m11 unat_exponent_field u by (rule sf(4))
  show "uint (w AND 4503599627370495) = r"
    unfolding m52 uint_and_mask_52 u by (rule sf(3))
  show "bit w 63 \<longleftrightarrow> sb = 1"
    unfolding bit_63_iff u by (rule sf(5))
qed

text \<open>
  An integer below \<open>2^53\<close> in absolute value is converted to the double that stands for
  exactly that integer.
\<close>

lemma float64_of_int_exact:
  assumes "\<bar>n\<bar> < 2 ^ 53"
  shows "float64_val (float64_of_int n) = Some (real_of_int n)"
proof (cases "n = 0")
  case True
  then show ?thesis
    by (simp add: float64_of_int_def float64_val_def float64_exp_def float64_mant_def float64_scale_def)
next
  case False
  define a where "a = \<bar>n\<bar>"
  define l where "l = bitlen a"
  define q where "q = a * 2 ^ (53 - l)"
  define sb :: int where "sb = (if n < 0 then 1 else 0)"
  from False have a0: "0 < a" by (simp add: a_def)
  from assms have a53: "a < 2 ^ 53" by (simp add: a_def)
  from bitlen_bounds [OF a0] have lb: "2 ^ (l - 1) \<le> a" "a < 2 ^ l" by (simp_all add: l_def)
  have l1: "1 \<le> l"
  proof (rule ccontr)
    assume "\<not> 1 \<le> l"
    then have "l = 0" by simp
    with lb(2) a0 show False by simp
  qed
  have l53: "l \<le> 53"
  proof (rule ccontr)
    assume "\<not> l \<le> 53"
    then have "53 \<le> l - 1" by simp
    then have "(2::int) ^ 53 \<le> 2 ^ (l - 1)" by (rule power_increasing) simp
    with lb(1) a53 show False by simp
  qed
  have pw: "(2::int) ^ (l - 1) * 2 ^ (53 - l) = 2 ^ 52" "(2::int) ^ l * 2 ^ (53 - l) = 2 ^ 53"
    using l1 l53 by (simp_all flip: power_add)
  have q_lo: "2 ^ 52 \<le> q"
  proof -
    have "2 ^ (l - 1) * 2 ^ (53 - l) \<le> a * (2::int) ^ (53 - l)"
      using lb(1) by (intro mult_right_mono) simp_all
    then show ?thesis by (simp only: pw q_def)
  qed
  have q_hi: "q < 2 ^ 53"
  proof -
    have "a * (2::int) ^ (53 - l) < 2 ^ l * 2 ^ (53 - l)"
      using lb(2) by (intro mult_strict_right_mono) simp_all
    then show ?thesis by (simp only: pw q_def)
  qed
  have e: "0 \<le> int l + 1022" "int l + 1022 < 2 ^ 11" using l53 by simp_all
  have r: "0 \<le> q - 2 ^ 52" "q - 2 ^ 52 < 2 ^ 52" using q_lo q_hi by simp_all
  have sb: "sb = 0 \<or> sb = 1" by (simp add: sb_def)
  have w: "float64_of_int n = word_of_int (sb * 2 ^ 63 + (int l + 1022) * 2 ^ 52 + (q - 2 ^ 52))"
    using False l53 by (simp add: float64_of_int_def Let_def a_def l_def q_def sb_def)
  note ff = float64_fields [OF e r sb, folded w]
  from ff(1) have ex: "float64_exp (float64_of_int n) = l + 1022" by simp
  from ff(2) ex have mant: "float64_mant (float64_of_int n) = q" by (simp add: float64_mant_def)
  from ex have sc: "float64_scale (float64_of_int n) = l + 1022" by (simp add: float64_scale_def)
  from ff(3) have sg: "bit (float64_of_int n) 63 \<longleftrightarrow> n < 0" by (simp add: sb_def)
  have "(2::real) powi (int (l + 1022) - 1075) = inverse (2 ^ (53 - l))"
    using l53 by (simp add: power_int_def nat_diff_distrib' power_one_over inverse_eq_divide)
  then have "real_of_int q * 2 powi (int (l + 1022) - 1075) = real_of_int a"
    by (simp add: q_def)
  with ex mant sc sg l53 show ?thesis
    by (simp add: float64_val_def a_def)
qed

text \<open>Beyond \<open>2^53\<close> the conversion rounds to nearest, ties to even.\<close>

lemma float64_of_int_examples:
  "float64_of_int 42 = 4631107791820423168"
  "float64_of_int (- 1) = 13830554455654793216"
  "float64_of_int (2 ^ 53 + 1) = 4845873199050653696"
  "float64_of_int (2 ^ 53 + 3) = 4845873199050653698"
  "float64_of_int (2 ^ 63 - 1) = 4890909195324358656"
  by (simp_all add: float64_of_int_def round_even_def bitlen.simps)

lemma float64_of_float32_examples:
  "float64_of_float32 1065353216 = 4607182418800017408"
  "float64_of_float32 1 = 3936146074321813504"
  "float64_of_float32 2139095040 = 9218868437227405312"
  by (simp_all add: float64_of_float32_def bitlen.simps)

section \<open>Basic facts\<close>

lemmas os_defs = os_OpenFile_def file_Stat_def file_Read_def file_Seek_def file_Truncate_def
  file_Write_def file_Sync_def file_Close_def fd_bytes_def fault_def tick_def
  gob_Decode_file_def gob_Encode_file_def

lemma New_world0: "New gob0 ''config.gob'' world0 = (Inr store0, world1)"
  by (simp add: New_def readFromFile_def os_defs world0_def world1_def store0_def)

lemma normalize_unsupported: "\<not> supported val \<Longrightarrow> normalize val = Inl (TypeError (type_name val))"
  by (cases val) (simp_all add: supported_def normalize_def)

lemma normalize_supported: "supported val \<Longrightarrow> \<exists>v. normalize val = Inr v"
  by (cases val) (simp_all add: supported_def normalize_def)

lemma normalize_42: "normalize (GoInt 42) = Inr (GoFloat64 4631107791820423168)"
  by (simp add: normalize_def float64_of_int_def bitlen.simps)

lemma float64_val_42: "float64_val 4631107791820423168 = Some 42"
  by (simp add: float64_val_def float64_exp_def float64_mant_def float64_scale_def)

lemma Set_stores:
  assumes "Set g c key val w = (Return r, c', w')" and "normalize val = Inr v"
  shows "map_index (data c') key = Some v"
  using assms by (auto simp: Set_def Let_def map_index_def split: option.splits)

lemma getters_of_stored:
  assumes "map_index (data c) key = Some v"
  shows "(\<forall>s. v = GoString s \<longrightarrow> GetString c key = (s, True)) \<and>
         (\<forall>b. v = GoBool b \<longrightarrow> GetBool c key = (b, True)) \<and>
         (\<forall>x. v = GoFloat64 x \<longrightarrow> GetFloat64 c key = (x, True))"
  using assms by (simp add: GetString_def GetBool_def GetFloat64_def)

lemma Set_ok: "Set gob0 store0 ''n'' (GoInt 42) world1 =
    (Return None,
     store0\<lparr>data := Some [''n'' \<mapsto> GoFloat64 4631107791820423168]\<rparr>,
     world1\<lparr>files := [''config.gob'' \<mapsto> [1]], fds := [3 \<mapsto> (''config.gob'', 1)], clock := 7\<rparr>)"
  by (simp add: Set_def normalize_42 flushUnsafeLocked_def store0_def world1_def os_defs gob0_def)

section \<open>The type switch of \<open>Set\<close>\<close>

text \<open>
  Claim C3 says that \<open>Set\<close> converts every signed integer of any width, 8 and 16 bits
  included, and every narrower float to a double before storing it. The switch names
  \<open>int\<close>, \<open>int32\<close>, \<open>int64\<close> and \<open>float32\<close> only: an \<open>int8\<close> or an \<open>int16\<close> takes the
  default branch and is rejected as an unsupported type, and nothing is stored.
\<close>

theorem Set_rejects_int8_int16:
  "fst (Set gob0 store0 ''n'' (GoInt8 42) world1) = Return (Some (TypeError ''int8'')) \<and>
   fst (Set gob0 store0 ''n'' (GoInt16 42) world1) = Return (Some (TypeError ''int16'')) \<and>
   data (fst (snd (Set gob0 store0 ''n'' (GoInt8 42) world1))) = Some Map.empty \<and>
   data (fst (snd (Set gob0 store0 ''n'' (GoInt16 42) world1))) = Some Map.empty"
  by (simp add: Set_def normalize_def type_name_def store0_def)

text \<open>
  Claim C3, amended: on a store whose map is \<open>m\<close>, \<open>Set\<close> binds the key to the double
  nearest to an \<open>int\<close>, \<open>int32\<close> or \<open>int64\<close> input and to the double equal to a \<open>float32\<close>
  input; a \<open>float64\<close>, a string and a boolean are bound unchanged; every other input
  (\<open>int8\<close>, \<open>int16\<close> and the unsigned integers among them) leaves the map as it was and is
  rejected with a type error, which a supported input never is.
\<close>

theorem Set_normalizes_listed_types:
  assumes "data c = Some m"
  shows "data (fst (snd (Set g c key val w))) =
           Some (case val of
                   GoInt i \<Rightarrow> m(key \<mapsto> GoFloat64 (float64_of_int (sint i)))
                 | GoInt32 i \<Rightarrow> m(key \<mapsto> GoFloat64 (float64_of_int (sint i)))
                 | GoInt64 i \<Rightarrow> m(key \<mapsto> GoFloat64 (float64_of_int (sint i)))
                 | GoFloat32 x \<Rightarrow> m(key \<mapsto> GoFloat64 (float64_of_float32 x))
                 | GoFloat64 x \<Rightarrow> m(key \<mapsto> GoFloat64 x)
                 | GoString s \<Rightarrow> m(key \<mapsto> GoString s)
                 | GoBool b \<Rightarrow> m(key \<mapsto> GoBool b)
                 | _ \<Rightarrow> m) \<and>
         (\<not> supported val \<longrightarrow> fst (Set g c key val w) = Return (Some (TypeError (type_name val)))) \<and>
         (supported val \<longrightarrow> (\<forall>t. fst (Set g c key val w) \<noteq> Return (Some (TypeError t))))"
  using assms
  by (cases val) (simp_all add: Set_def normalize_def supported_def Let_def flushUnsafeLocked_def
      split: option.splits prod.splits bool.splits)

theorem Set_normalizes_listed_types_witness:
  "data store0 = Some Map.empty \<and> supported (GoInt 42) \<and> \<not> supported (GoUint8 7) \<and>
   data (fst (snd (Set gob0 store0 ''n'' (GoInt 42) world1)))
     = Some [''n'' \<mapsto> GoFloat64 (float64_of_int 42)] \<and>
   fst (Set gob0 store0 ''n'' (GoInt 42) world1) \<noteq> Return (Some (TypeError ''int'')) \<and>
   data (fst (snd (Set gob0 store0 ''n'' (GoUint8 7) world1))) = Some Map.empty \<and>
   fst (Set gob0 store0 ''n'' (GoUint8 7) world1) = Return (Some (TypeError ''uint8''))"
  using Set_normalizes_listed_types [of store0 Map.empty gob0 "''n''" "GoInt 42" world1]
    Set_normalizes_listed_types [of store0 Map.empty gob0 "''n''" "GoUint8 7" world1]
  by (simp add: store0_def supported_def type_name_def)

section \<open>\<open>Set\<close> followed by a read\<close>

text \<open>
  Claim C4: when \<open>Set\<close> on a key returns a nil error, the value was one the switch
  accepts, and the accessor of its type finds the normalised value under the key:
  \<open>GetString\<close> the string itself, \<open>GetBool\<close> the boolean itself, \<open>GetFloat64\<close> the double
  a numeric input was converted to.
\<close>

theorem Set_then_Get:
  assumes "Set g c key val w = (Return None, c', w')"
  shows "\<exists>v. normalize val = Inr v \<and>
           ((\<exists>s. v = GoString s \<and> val = v \<and> GetString c' key = (s, True)) \<or>
            (\<exists>b. v = GoBool b \<and> val = v \<and> GetBool c' key = (b, True)) \<or>
            (\<exists>x. v = GoFloat64 x \<and> GetFloat64 c' key = (x, True)))"
proof -
  from assms obtain v where v: "normalize val = Inr v"
    by (auto simp: Set_def split: sum.splits)
  with assms have st: "map_index (data c') key = Some v"
    by (rule Set_stores)
  from v have "(\<exists>s. v = GoString s \<and> val = v) \<or> (\<exists>b. v = GoBool b \<and> val = v) \<or> (\<exists>x. v = GoFloat64 x)"
    by (cases val) (auto simp: normalize_def)
  with getters_of_stored [OF st] v show ?thesis by blast
qed

theorem Set_then_Get_witness:
  "fst (Set gob0 store0 ''n'' (GoInt 42) world1) = Return None \<and>
   normalize (GoInt 42) = Inr (GoFloat64 4631107791820423168) \<and>
   float64_val 4631107791820423168 = Some 42 \<and>
   GetFloat64 (fst (snd (Set gob0 store0 ''n'' (GoInt 42) world1))) ''n'' = (4631107791820423168, True)"
  using Set_then_Get [OF Set_ok] normalize_42 float64_val_42 Set_ok by auto

section \<open>Unsupported values\<close>

text \<open>
  Claim C5: \<open>Set\<close> with a value of a type the switch does not name returns the type error
  and leaves the store and the world exactly as they were: the map is not written and no
  system call is made, so nothing is flushed.
\<close>

theorem Set_unsupported_unchanged:
  "\<not> supported val \<Longrightarrow> Set g c key val w = (Return (Some (TypeError (type_name val))), c, w)"
  by (simp add: Set_def normalize_unsupported)

theorem Set_unsupported_unchanged_witness:
  "\<not> supported (GoOther ''cfg.custom'') \<and>
   Set gob0 store0 ''custom_key'' (GoOther ''cfg.custom'') world1
     = (Return (Some (TypeError ''cfg.custom'')), store0, world1)"
  using Set_unsupported_unchanged [of "GoOther ''cfg.custom''" gob0 store0 "''custom_key''" world1]
  by (simp add: supported_def type_name_def)

section \<open>A failing flush\<close>

text \<open>
  Claim C6: when the flush inside \<open>Set\<close> of a supported value fails, \<open>Set\<close> returns the
  error of the flush, and the map of the store holds the key bound to the normalised
  value all the same: the write to the map is not undone.
\<close>

theorem Set_flush_failure_keeps_value:
  assumes "data c = Some m" and "normalize val = Inr v"
    and "fst (flushUnsafeLocked g (c\<lparr>data := Some (m(key \<mapsto> v))\<rparr>) w) = Some err"
  shows "fst (Set g c key val w) = Return (Some err) \<and>
         map_index (data (fst (snd (Set g c key val w)))) key = Some v"
  using assms by (simp add: Set_def Let_def map_index_def)

theorem Set_flush_failure_keeps_value_witness:
  "data store0 = Some Map.empty \<and>
   normalize (GoInt 42) = Inr (GoFloat64 4631107791820423168) \<and>
   fst (flushUnsafeLocked gob0 (store0\<lparr>data := Some [''n'' \<mapsto> GoFloat64 4631107791820423168]\<rparr>)
          world_failing) = Some (IOError OpTruncate) \<and>
   fst (Set gob0 store0 ''n'' (GoInt 42) world_failing) = Return (Some (IOError OpTruncate)) \<and>
   map_index (data (fst (snd (Set gob0 store0 ''n'' (GoInt 42) world_failing)))) ''n''
     = Some (GoFloat64 4631107791820423168)"
proof -
  have d: "data store0 = Some Map.empty" by (simp add: store0_def)
  have f: "fst (flushUnsafeLocked gob0 (store0\<lparr>data := Some [''n'' \<mapsto> GoFloat64 4631107791820423168]\<rparr>)
                  world_failing) = Some (IOError OpTruncate)"
    by (simp add: flushUnsafeLocked_def store0_def world_failing_def world1_def os_defs)
  from Set_flush_failure_keeps_value [OF d normalize_42 f] d normalize_42 f
  show ?thesis by simp
qed

section \<open>Reads of an absent key or of another type\<close>

text \<open>
  Claim C7: \<open>GetString\<close>, \<open>GetFloat64\<close> and \<open>GetBool\<close> answer with the zero value of their
  type and \<open>false\<close> whenever the key does not hold a value of that type, be it absent or
  bound to a value of another type: the two cases give the same answer, and no error is
  part of the result.
\<close>

theorem Get_absent_or_mismatch:
  "((\<forall>s. map_index (data c) key \<noteq> Some (GoString s)) \<longrightarrow> GetString c key = ('''', False)) \<and>
   ((\<forall>x. map_index (data c) key \<noteq> Some (GoFloat64 x)) \<longrightarrow> GetFloat64 c key = (0, False)) \<and>
   ((\<forall>b. map_index (data c) key \<noteq> Some (GoBool b)) \<longrightarrow> GetBool c key = (False, False))"
  by (auto simp: GetString_def GetFloat64_def GetBool_def split: option.splits gvalue.splits)

theorem Get_absent_or_mismatch_witness:
  "GetString (store0\<lparr>data := Some [''n'' \<mapsto> GoFloat64 4631107791820423168]\<rparr>) ''n'' = ('''', False) \<and>
   GetBool (store0\<lparr>data := Some [''n'' \<mapsto> GoFloat64 4631107791820423168]\<rparr>) ''n'' = (False, False) \<and>
   GetFloat64 (store0\<lparr>data := Some [''n'' \<mapsto> GoString ''x'']\<rparr>) ''n'' = (0, False) \<and>
   GetString store0 ''n'' = ('''', False) \<and> GetBool store0 ''n'' = (False, False) \<and>
   GetFloat64 store0 ''n'' = (0, False)"
  using Get_absent_or_mismatch [of "store0\<lparr>data := Some [''n'' \<mapsto> GoFloat64 4631107791820423168]\<rparr>" "''n''"]
    Get_absent_or_mismatch [of "store0\<lparr>data := Some [''n'' \<mapsto> GoString ''x'']\<rparr>" "''n''"]
    Get_absent_or_mismatch [of store0 "''n''"]
  by (simp add: map_index_def store0_def)

section \<open>System calls that succeed\<close>

lemma file_Truncate_True:
  assumes "file_Truncate fd w = (True, w')" and "fds w fd = Some (p, pos)"
  shows "files w' = (files w)(p \<mapsto> []) \<and> fds w' = fds w"
  using assms by (auto simp: file_Truncate_def tick_def split: option.splits)

lemma file_Seek_True:
  assumes "file_Seek fd w = (True, w')" and "fds w fd = Some (p, pos)"
  shows "files w' = files w \<and> fds w' = (fds w)(fd \<mapsto> (p, 0))"
  using assms by (auto simp: file_Seek_def tick_def split: option.splits)

lemma gob_Encode_file_True:
  assumes "gob_Encode_file g fd d w = (True, w')" and "fds w fd = Some (p, 0)"
    and "files w p = Some []"
  shows "\<exists>bs. gob_Encode g d = Some bs \<and> files w' = (files w)(p \<mapsto> bs) \<and>
              fds w' = (fds w)(fd \<mapsto> (p, length bs))"
  using assms
  by (auto simp: gob_Encode_file_def file_Write_def tick_def Let_def split: option.splits)

lemma file_Sync_True:
  assumes "file_Sync fd w = (True, w')"
  shows "files w' = files w \<and> fds w' = fds w"
  using assms by (auto simp: file_Sync_def tick_def split: option.splits)

lemma file_Close_files:
  assumes "file_Close fd w = (b, w')"
  shows "files w' = files w"
  using assms by (auto simp: file_Close_def tick_def split: option.splits)

text \<open>A flush that succeeds leaves exactly the encoding of the map in the file.\<close>

lemma flush_ok:
  assumes fl: "flushUnsafeLocked g c w = (None, w')"
    and fd: "file' c = Some fd" and op: "fds w fd = Some (p, pos)"
  shows "\<exists>bs. gob_Encode g (data c) = Some bs \<and> files w' p = Some bs \<and>
              fds w' fd = Some (p, length bs)"
proof -
  from fl fd obtain w1 w2 w3 where
    t: "file_Truncate fd w = (True, w1)" and s: "file_Seek fd w1 = (True, w2)" and
    e: "gob_Encode_file g fd (data c) w2 = (True, w3)" and y: "file_Sync fd w3 = (True, w')"
    by (auto simp: flushUnsafeLocked_def split: prod.splits bool.splits)
  from file_Truncate_True [OF t op] op have w1: "files w1 p = Some []" "fds w1 fd = Some (p, pos)"
    by simp_all
  from file_Seek_True [OF s w1(2)] w1(1) have w2: "files w2 p = Some []" "fds w2 fd = Some (p, 0)"
    by simp_all
  from gob_Encode_file_True [OF e w2(2) w2(1)] obtain bs where
    bs: "gob_Encode g (data c) = Some bs" "files w3 p = Some bs" "fds w3 fd = Some (p, length bs)"
    by auto
  with file_Sync_True [OF y] show ?thesis by simp
qed

lemma Set_Return_None:
  assumes "Set g c key val w = (Return None, c', w')"
  shows "\<exists>m v. data c = Some m \<and> normalize val = Inr v \<and> c' = c\<lparr>data := Some (m(key \<mapsto> v))\<rparr> \<and>
               flushUnsafeLocked g c' w = (None, w')"
  using assms
  by (auto simp: Set_def Let_def split: sum.splits option.splits intro: prod_eqI)

lemma Finish_ok:
  assumes fin: "Finish g c w = (None, c', w')"
    and fd: "file' c = Some fd" and op: "fds w fd = Some (p, pos)"
  shows "\<exists>bs. gob_Encode g (data c) = Some bs \<and> files w' p = Some bs" and "c' = c\<lparr>file' := None\<rparr>"
proof -
  from fin fd obtain w1 where
    fl: "flushUnsafeLocked g c w = (None, w1)" and cl: "file_Close fd w1 = (True, w')"
    and c': "c' = c\<lparr>file' := None\<rparr>"
    by (auto simp: Finish_def split: prod.splits option.splits bool.splits)
  from flush_ok [OF fl fd op] file_Close_files [OF cl]
  show "\<exists>bs. gob_Encode g (data c) = Some bs \<and> files w' p = Some bs" by auto
  from c' show "c' = c\<lparr>file' := None\<rparr>" .
qed

text \<open>\<open>New\<close> on a file that is not empty holds what the decoder makes of its content.\<close>

lemma New_reads:
  assumes new: "New g p w = (Inr c, w')" and f: "files w p = Some bs" and ne: "bs \<noteq> []"
  shows "data c = (case gob_Decode g bs of Decoded m \<Rightarrow> Some m | _ \<Rightarrow> None)"
  using assms
  by (auto simp: New_def readFromFile_def os_OpenFile_def file_Stat_def fd_bytes_def
        gob_Decode_file_def file_Read_def file_Seek_def file_Close_def tick_def fault_def
      split: prod.splits option.splits bool.splits decoded.splits if_splits)

text \<open>A store that \<open>New\<close> returns holds an open descriptor on its path, and \<open>Set\<close> keeps it.\<close>

lemma New_holds_file:
  assumes "New g p w = (Inr c, w')"
  shows "holds_file c w' \<and> path c = p"
  using assms
  by (auto simp: New_def readFromFile_def os_OpenFile_def file_Stat_def fd_bytes_def
        gob_Decode_file_def file_Read_def file_Seek_def file_Close_def tick_def fault_def
        holds_file_def
      split: prod.splits option.splits bool.splits decoded.splits if_splits)

lemma flush_holds_file:
  assumes "holds_file c w"
  shows "holds_file c (snd (flushUnsafeLocked g c w))"
  using assms
  by (auto simp: holds_file_def flushUnsafeLocked_def file_Truncate_def file_Seek_def
        gob_Encode_file_def file_Write_def file_Sync_def tick_def Let_def
      split: prod.splits option.splits bool.splits if_splits)

lemma Set_holds_file:
  assumes "holds_file c w" and "Set g c key val w = (r, c', w')"
  shows "holds_file c' w'"
proof (cases "normalize val")
  case (Inl e)
  with assms show ?thesis by (simp add: Set_def)
next
  case (Inr v)
  show ?thesis
  proof (cases "data c")
    case None
    with Inr assms show ?thesis by (simp add: Set_def)
  next
    case (Some m)
    let ?c = "c\<lparr>data := Some (m(key \<mapsto> v))\<rparr>"
    from assms(1) have "holds_file ?c w" by (auto simp: holds_file_def split: option.splits)
    from flush_holds_file [OF this, of g] Inr Some assms(2) show ?thesis
      by (auto simp: Set_def Let_def)
  qed
qed

section \<open>After \<open>Finish\<close>\<close>





section \<open>Opening a file that does not decode\<close>



text \<open>
  What the assumption on the decoder is for: were the decoder to report \<open>io.EOF\<close> on a
  file that is not empty, \<open>New\<close> would return a store whose map is nil, and the next
  \<open>Set\<close> of a supported value would panic.
\<close>

lemma New_after_EOF:
  assumes f: "files w p = Some bs" and ne: "bs \<noteq> []"
    and eof: "gob_Decode g bs = DecodeEOF"
    and ok: "\<forall>n. faults w n = None"
  shows "\<exists>c w'. New g p w = (Inr c, w') \<and> data c = None \<and>
           (\<forall>key val. supported val \<longrightarrow> fst (Set g c key val w') = Panic)"
  using assms
  apply (simp add: New_def readFromFile_def os_OpenFile_def file_Stat_def fd_bytes_def
        gob_Decode_file_def file_Read_def file_Seek_def tick_def fault_def Set_def)
  apply (auto dest!: normalize_supported)
  done

section \<open>Written, closed, opened again\<close>

text \<open>
  Claim C8: take a store that holds its file open, a \<open>Set\<close> on it that returns nil, then a
  \<open>Finish\<close> that returns nil, then a \<open>New\<close> on the same path that returns a store, and let
  the serialisation read back what it writes for the map the first store held. Then the
  new store holds that very map, and the accessor of the value's type finds the
  normalised value under the key.
\<close>

theorem Set_Finish_New_roundtrip:
  assumes hf: "holds_file c w"
    and set: "Set g c key val w = (Return None, c1, w1)"
    and rt: "data c1 = Some m" "round_trips g m"
    and fin: "Finish g c1 w1 = (None, c2, w2)"
    and new: "New g (path c) w2 = (Inr c3, w3)"
  shows "data c3 = Some m \<and>
         (\<exists>v. normalize val = Inr v \<and>
           ((\<exists>s. v = GoString s \<and> val = v \<and> GetString c3 key = (s, True)) \<or>
            (\<exists>b. v = GoBool b \<and> val = v \<and> GetBool c3 key = (b, True)) \<or>
            (\<exists>x. v = GoFloat64 x \<and> GetFloat64 c3 key = (x, True))))"
proof -
  from hf obtain fd pos where fd: "file' c = Some fd" and op: "fds w fd = Some (path c, pos)"
    by (auto simp: holds_file_def split: option.splits)
  from Set_Return_None [OF set] obtain m0 v where
    v: "normalize val = Inr v" and c1: "c1 = c\<lparr>data := Some (m0(key \<mapsto> v))\<rparr>"
    and fl: "flushUnsafeLocked g c1 w = (None, w1)"
    by blast
  from c1 fd have fd1: "file' c1 = Some fd" by simp
  from c1 rt(1) have mk: "m key = Some v" by auto
  from flush_ok [OF fl fd1 op] obtain bs0 where
    "gob_Encode g (data c1) = Some bs0" and "files w1 (path c) = Some bs0"
    and op1: "fds w1 fd = Some (path c, length bs0)"
    by (elim exE conjE)
  from Finish_ok(1) [OF fin fd1 op1] rt(1) obtain bs where
    bs: "gob_Encode g (Some m) = Some bs" "files w2 (path c) = Some bs"
    by auto
  from rt(2) bs(1) have dec: "bs \<noteq> []" "gob_Decode g bs = Decoded m"
    by (simp_all add: round_trips_def)
  from New_reads [OF new bs(2) dec(1)] dec(2) have d3: "data c3 = Some m" by simp
  with mk have st: "map_index (data c3) key = Some v" by (simp add: map_index_def)
  from v have "(\<exists>s. v = GoString s \<and> val = v) \<or> (\<exists>b. v = GoBool b \<and> val = v) \<or> (\<exists>x. v = GoFloat64 x)"
    by (cases val) (auto simp: normalize_def)
  with getters_of_stored [OF st] v d3 show ?thesis by blast
qed

lemma Set_foo: "Set gob0 store0 ''foo'' (GoString ''bar'') world1 =
    (Return None,
     store0\<lparr>data := Some [''foo'' \<mapsto> GoString ''bar'']\<rparr>,
     world1\<lparr>files := [''config.gob'' \<mapsto> [1]], fds := [3 \<mapsto> (''config.gob'', 1)], clock := 7\<rparr>)"
  by (simp add: Set_def normalize_def flushUnsafeLocked_def store0_def world1_def os_defs gob0_def)

lemma Finish_foo: "Finish gob0 (store0\<lparr>data := Some [''foo'' \<mapsto> GoString ''bar'']\<rparr>)
      (world1\<lparr>files := [''config.gob'' \<mapsto> [1]], fds := [3 \<mapsto> (''config.gob'', 1)], clock := 7\<rparr>) =
    (None, store0\<lparr>data := Some [''foo'' \<mapsto> GoString ''bar''], file' := None\<rparr>,
     world2\<lparr>clock := 12\<rparr>)"
  by (simp add: Finish_def flushUnsafeLocked_def store0_def world1_def world2_def os_defs gob0_def)

lemma New_foo: "New gob0 ''config.gob'' (world2\<lparr>clock := 12\<rparr>) =
    (Inr (store0\<lparr>data := Some [''foo'' \<mapsto> GoString ''bar''], file' := Some 4\<rparr>),
     world2\<lparr>fds := [4 \<mapsto> (''config.gob'', 0)], next_fd := 5, clock := 16\<rparr>)"
  by (simp add: New_def readFromFile_def store0_def world2_def os_defs gob0_def)

lemma round_trips_foo: "round_trips gob0 [''foo'' \<mapsto> GoString ''bar'']"
  by (simp add: round_trips_def gob0_def)

theorem Set_Finish_New_roundtrip_witness:
  "holds_file store0 world1 \<and>
   fst (Set gob0 store0 ''foo'' (GoString ''bar'') world1) = Return None \<and>
   round_trips gob0 [''foo'' \<mapsto> GoString ''bar''] \<and>
   fst (New gob0 ''config.gob'' (world2\<lparr>clock := 12\<rparr>))
     = Inr (store0\<lparr>data := Some [''foo'' \<mapsto> GoString ''bar''], file' := Some 4\<rparr>) \<and>
   GetString (store0\<lparr>data := Some [''foo'' \<mapsto> GoString ''bar''], file' := Some 4\<rparr>) ''foo''
     = (''bar'', True)"
proof -
  have hf: "holds_file store0 world1"
    and d: "data (store0\<lparr>data := Some [''foo'' \<mapsto> GoString ''bar'']\<rparr>) = Some [''foo'' \<mapsto> GoString ''bar'']"
    and p: "path store0 = ''config.gob''"
    by (simp_all add: holds_file_def store0_def world1_def)
  from Set_Finish_New_roundtrip [OF hf Set_foo d round_trips_foo Finish_foo New_foo [folded p]]
  show ?thesis using hf Set_foo New_foo round_trips_foo by (auto simp: normalize_def)
qed

section \<open>Completing a step\<close>

lemma Complete_first:
  "Complete err (New_Step nm) =
     (err, \<lparr>name = nm, done' = 1, onceComplete = True, output' = [final_line nm err]\<rparr>)"
  by (simp add: Complete_def New_Step_def)

lemma Complete_later:
  assumes "onceComplete s"
  shows "Complete err s =
     ((if done' s + 1 > 1 then Some (AlreadyCompletedError (name s)) else None),
      s\<lparr>done' := done' s + 1\<rparr>)"
  using assms by (simp add: Complete_def Let_def)

lemma Complete_times_state:
  "0 < n \<Longrightarrow> Complete_times n (New_Step nm) =
     \<lparr>name = nm, done' = of_nat n, onceComplete = True, output' = [final_line nm None]\<rparr>"
proof (induction n)
  case 0
  then show ?case by simp
next
  case (Suc n)
  show ?case
  proof (cases "n = 0")
    case True
    then show ?thesis by (simp add: Complete_times_def Complete_first)
  next
    case False
    with Suc.IH have "Complete_times n (New_Step nm) =
       \<lparr>name = nm, done' = of_nat n, onceComplete = True, output' = [final_line nm None]\<rparr>"
      by simp
    then show ?thesis by (simp add: Complete_times_def Complete_later)
  qed
qed

lemma word32_succ_gt_1:
  assumes "0 < n" and "n < 4294967295"
  shows "(of_nat n + 1 :: 32 word) > 1"
proof -
  have "unat (of_nat n + 1 :: 32 word) = (n + 1) mod 2 ^ 32"
    by (simp add: unat_word_ariths unat_of_nat mod_simps)
  also from assms have "\<dots> = n + 1" by simp
  finally show ?thesis using assms by (simp add: word_less_nat_alt)
qed

text \<open>
  Up to the call that makes the counter wrap, \<open>Complete\<close> does what its comment says:
  the first call prints the final line and returns the error it was given, and each of
  the next \<open>2^32 - 2\<close> calls returns the already-completed error and prints nothing.
\<close>

lemma Complete_again:
  assumes "0 < n" and "n < 4294967295"
  shows "Complete err (Complete_times n (New_Step nm)) =
     (Some (AlreadyCompletedError nm),
      \<lparr>name = nm, done' = of_nat n + 1, onceComplete = True, output' = [final_line nm None]\<rparr>)"
  using assms by (simp add: Complete_times_state Complete_later word32_succ_gt_1)

text \<open>
  Claim C9 says that every call of \<open>Complete\<close> after the first returns the
  already-completed error, and the comment in \<open>Complete\<close> says the same. The counter
  \<open>done\<close> is a \<open>uint32\<close> that every call increments: on a step that was completed
  \<open>2^32 - 1\<close> times the next call makes it 0, the test \<open>s.done > 1\<close> fails, the
  \<open>sync.Once\<close> does not run again, and \<open>Complete\<close> returns nil.
\<close>

theorem Complete_counter_wraps:
  "Complete None (Complete_times 4294967295 (New_Step ''build'')) =
     (None, \<lparr>name = ''build'', done' = 0, onceComplete = True, output' = [''[ok] build'']\<rparr>)"
proof -
  have z: "(4294967296 :: 32 word) = 0" by simp
  show ?thesis
    by (simp add: Complete_times_state Complete_later final_line_def z)
qed

section \<open>Reading a number as an integer\<close>

lemma floor_scaled:
  fixes m :: int
  shows "\<lfloor>real_of_int m * 2 powi (int ex - 1075)\<rfloor> =
         (if 1075 \<le> ex then m * 2 ^ (ex - 1075) else m div 2 ^ (1075 - ex))"
proof (cases "1075 \<le> ex")
  case True
  then have "(2::real) powi (int ex - 1075) = 2 ^ (ex - 1075)"
    by (simp add: power_int_def nat_diff_distrib')
  then have "real_of_int m * 2 powi (int ex - 1075) = real_of_int (m * 2 ^ (ex - 1075))"
    by simp
  then show ?thesis using True by (simp only: floor_of_int if_True)
next
  case False
  then have "(2::real) powi (int ex - 1075) = inverse (2 ^ (1075 - ex))"
    by (simp add: power_int_def nat_diff_distrib' power_one_over inverse_eq_divide)
  then have "real_of_int m * 2 powi (int ex - 1075) = real_of_int m / real_of_int (2 ^ (1075 - ex))"
    by (simp add: divide_inverse)
  then show ?thesis using False by (simp only: floor_divide_of_int_eq if_False)
qed

lemma float64_mant_nonneg: "0 \<le> float64_mant v"
  by (simp add: float64_mant_def)

text \<open>The integer the conversion computes is the truncation of the number the double stands for.\<close>

lemma trunc_float64_val:
  assumes "float64_val v = Some x"
  shows "trunc x =
     (let m = float64_mant v; ex = float64_scale v;
          mag = (if 1075 \<le> ex then m * 2 ^ (ex - 1075) else m div 2 ^ (1075 - ex))
      in if bit v 63 then - mag else mag)"
proof -
  let ?m = "float64_mant v" and ?ex = "float64_scale v"
  let ?y = "real_of_int ?m * 2 powi (int ?ex - 1075)"
  have y0: "0 \<le> ?y" using float64_mant_nonneg [of v] by simp
  have fl: "\<lfloor>?y\<rfloor> = (if 1075 \<le> ?ex then ?m * 2 ^ (?ex - 1075) else ?m div 2 ^ (1075 - ?ex))"
    by (rule floor_scaled)
  show ?thesis
  proof (cases "bit v 63")
    case True
    with assms have x: "x = - ?y" by (simp add: float64_val_def split: if_splits)
    have "trunc x = - \<lfloor>?y\<rfloor>"
    proof (cases "x < 0")
      case True then show ?thesis by (simp add: trunc_def x)
    next
      case False
      with y0 x have "?y = 0" by simp
      then show ?thesis by (simp add: trunc_def x)
    qed
    with True fl show ?thesis by (simp add: Let_def)
  next
    case False
    with assms have x: "x = ?y" by (simp add: float64_val_def split: if_splits)
    with y0 have "trunc x = \<lfloor>?y\<rfloor>" by (simp add: trunc_def)
    with False fl show ?thesis by (simp add: Let_def)
  qed
qed

lemma int_of_float64_trunc:
  assumes "float64_val v = Some x" and "- (2 ^ 63) \<le> trunc x" and "trunc x < 2 ^ 63"
  shows "int_of_float64 impl v = word_of_int (trunc x)"
proof -
  from assms(1) have e: "float64_exp v \<noteq> 2047" by (simp add: float64_val_def split: if_splits)
  show ?thesis
    using assms(2,3) e unfolding trunc_float64_val [OF assms(1)] int_of_float64_def
    by (simp add: Let_def)
qed

lemma sint_word_of_int_64:
  "- (2 ^ 63) \<le> t \<Longrightarrow> t < 2 ^ 63 \<Longrightarrow> sint (word_of_int t :: 64 word) = t"
  by (simp add: sint_sbintrunc' signed_take_bit_int_eq_self)

lemma float64_val_3_9: "float64_val 4615964438073389875 = Some (8782019273372467 / 2251799813685248)"
  by (simp add: float64_val_def float64_exp_def float64_mant_def float64_scale_def)

lemma trunc_3_9: "trunc (8782019273372467 / 2251799813685248) = 3"
  by (simp add: trunc_def)

lemma float64_val_2_63: "float64_val 4890909195324358656 = Some (2 ^ 63)"
  by (simp add: float64_val_def float64_exp_def float64_mant_def float64_scale_def)

lemma trunc_2_63: "trunc 9223372036854775808 = 9223372036854775808"
  by (simp add: trunc_def)

text \<open>
  Claim C10 says that \<open>GetInt\<close> on a key that holds a double returns the truncation of
  the double, whatever the double. An \<open>int\<close> has 64 bits: the double \<open>2^63\<close> (bits
  \<open>0x43E0000000000000\<close>) is its own truncation and no \<open>int\<close> equals it. On amd64 the
  conversion gives \<open>-2^63\<close>.
\<close>

theorem GetInt_out_of_range:
  "float64_val 4890909195324358656 = Some (2 ^ 63) \<and>
   GetInt amd64_indefinite (store0\<lparr>data := Some [''n'' \<mapsto> GoFloat64 4890909195324358656]\<rparr>) ''n''
     = (- (2 ^ 63), True) \<and>
   sint (fst (GetInt amd64_indefinite (store0\<lparr>data := Some [''n'' \<mapsto> GoFloat64 4890909195324358656]\<rparr>) ''n''))
     \<noteq> trunc (2 ^ 63)"
  by (simp add: float64_val_2_63 trunc_2_63 GetInt_def map_index_def store0_def int_of_float64_def
      float64_exp_def float64_mant_def float64_scale_def amd64_indefinite_def)

text \<open>
  Claim C10, amended: on a key that holds a double, \<open>GetInt\<close> always answers \<open>true\<close>,
  integral or not; when the double is finite and its truncation towards zero fits an
  \<open>int\<close> of 64 bits, the integer returned is that truncation (3 for 3.9). For the other
  doubles the integer is what the implementation makes of the conversion.
\<close>

theorem GetInt_truncates:
  assumes "map_index (data c) key = Some (GoFloat64 v)"
  shows "snd (GetInt impl c key) = True \<and>
         (\<forall>x. float64_val v = Some x \<and> - (2 ^ 63) \<le> trunc x \<and> trunc x < 2 ^ 63
              \<longrightarrow> sint (fst (GetInt impl c key)) = trunc x)"
  using assms by (auto simp: GetInt_def int_of_float64_trunc sint_word_of_int_64)

lemma Set_3_9: "Set gob0 store0 ''n'' (GoFloat64 4615964438073389875) world1 =
    (Return None,
     store0\<lparr>data := Some [''n'' \<mapsto> GoFloat64 4615964438073389875]\<rparr>,
     world1\<lparr>files := [''config.gob'' \<mapsto> [1]], fds := [3 \<mapsto> (''config.gob'', 1)], clock := 7\<rparr>)"
  by (simp add: Set_def normalize_def flushUnsafeLocked_def store0_def world1_def os_defs gob0_def)

theorem GetInt_truncates_witness:
  "map_index (data (fst (snd (Set gob0 store0 ''n'' (GoFloat64 4615964438073389875) world1)))) ''n''
     = Some (GoFloat64 4615964438073389875) \<and>
   float64_val 4615964438073389875 = Some (8782019273372467 / 2251799813685248) \<and>
   trunc (8782019273372467 / 2251799813685248) = 3 \<and>
   snd (GetInt amd64_indefinite (fst (snd (Set gob0 store0 ''n'' (GoFloat64 4615964438073389875) world1))) ''n'') = True \<and>
   sint (fst (GetInt amd64_indefinite (fst (snd (Set gob0 store0 ''n'' (GoFloat64 4615964438073389875) world1))) ''n'')) = 3"
proof -
  let ?c = "fst (snd (Set gob0 store0 ''n'' (GoFloat64 4615964438073389875) world1))"
  have h: "map_index (data ?c) ''n'' = Some (GoFloat64 4615964438073389875)"
    by (simp add: Set_3_9 map_index_def)
  note t = GetInt_truncates [OF h, of amd64_indefinite]
  from t have a: "snd (GetInt amd64_indefinite ?c ''n'') = True" by (rule conjunct1)
  have b: "sint (fst (GetInt amd64_indefinite ?c ''n'')) = trunc (8782019273372467 / 2251799813685248)"
    by (rule t [THEN conjunct2, rule_format]) (simp add: float64_val_3_9 trunc_3_9)
  from a b h float64_val_3_9 trunc_3_9 show ?thesis by simp
qed

end
